theory Spec2Isabelle
  imports Complex_Main "HOL-Library.AList" "HOL-Library.Sublist"
begin

section \<open>JavaScript strings\<close>

text \<open>
  A JavaScript string is a sequence of code units; it is modelled as a \<^typ>\<open>string\<close>, whose
  characters are the code units U+0000 to U+00FF, and \<open>length\<close> counts them as
  \<open>String.prototype.length\<close> does.
\<close>

definition LF :: char where
  "LF = CHR 0x0A"

definition CR :: char where
  "CR = CHR 0x0D"

text \<open>
  \<open>String.prototype.trim\<close> strips WhiteSpace and LineTerminator code units from both ends.
  In the modelled range these are tab, line feed, vertical tab, form feed, carriage return,
  space and the no-break space U+00A0.
\<close>

definition isWhiteSpace :: "char \<Rightarrow> bool" where
  "isWhiteSpace c =
     (let n = (of_char c :: nat) in (9 \<le> n \<and> n \<le> 13) \<or> n = 32 \<or> n = 160)"

definition trimStart :: "string \<Rightarrow> string" where
  "trimStart s = dropWhile isWhiteSpace s"

definition trimEnd :: "string \<Rightarrow> string" where
  "trimEnd s = rev (dropWhile isWhiteSpace (rev s))"

definition trim :: "string \<Rightarrow> string" where
  "trim s = trimEnd (trimStart s)"

text \<open>\<open>s.substring(0, n)\<close>: a negative end is taken as 0, an end beyond the length as the length.\<close>

definition substring0 :: "string \<Rightarrow> int \<Rightarrow> string" where
  "substring0 s n = take (nat n) s"

section \<open>Configuration\<close>

text \<open>
  The parts of the configuration object that the modules below read. Every number is the result
  of \<open>parseInt\<close> on an environment variable (or an integer default), hence an integer.
\<close>

record RateLimitConfig =
  maxRequests :: int
  windowMinutes :: int

record TextProcessingConfig =
  maxLength :: int

record Config =
  rateLimit :: RateLimitConfig
  textProcessing :: TextProcessingConfig

section \<open>Input sanitization\<close>

record SanitizeResult =
  sanitizedText :: string
  wasTruncated :: bool
  originalLength :: int
  finalLength :: int
  removedCharacters :: int

text \<open>The character class of \<open>CONTROL_CHAR_REGEX\<close>: \<open>[\x00-\x08\x0B\x0C\x0E-\x1F\x7F]\<close>.\<close>

definition isControlChar :: "char \<Rightarrow> bool" where
  "isControlChar c =
     (let n = (of_char c :: nat) in n \<le> 8 \<or> n = 11 \<or> n = 12 \<or> (14 \<le> n \<and> n \<le> 31) \<or> n = 127)"

text \<open>\<open>cleaned.replace(CONTROL_CHAR_REGEX, '')\<close>\<close>

definition removeControlChars :: "string \<Rightarrow> string" where
  "removeControlChars s = filter (\<lambda>c. \<not> isControlChar c) s"

text \<open>\<open>cleaned.replace(/\r\n/g, '\n')\<close>: a left-to-right scan over non-overlapping matches.\<close>

fun replaceCRLF :: "string \<Rightarrow> string" where
  "replaceCRLF (c # d # cs) =
     (if c = CR \<and> d = LF then LF # replaceCRLF cs else c # replaceCRLF (d # cs))"
| "replaceCRLF cs = cs"

text \<open>\<open>cleaned.replace(/\r/g, '\n')\<close>\<close>

definition replaceCR :: "string \<Rightarrow> string" where
  "replaceCR s = map (\<lambda>c. if c = CR then LF else c) s"

text \<open>
  \<open>cleaned.replace(/\n{3,}/g, '\n\n')\<close>: the scan is left to right and the quantifier greedy,
  so a match starts at the first line feed of a run of three or more and covers the whole run.
\<close>

function collapseNewlines :: "string \<Rightarrow> string" where
  "collapseNewlines [] = []"
| "collapseNewlines (c # cs) =
     (if c = LF \<and> 3 \<le> length (takeWhile (\<lambda>x. x = LF) (c # cs))
      then LF # LF # collapseNewlines (dropWhile (\<lambda>x. x = LF) (c # cs))
      else c # collapseNewlines cs)"
  by pat_completeness auto
termination
  by (relation "measure length") (auto simp: less_Suc_eq_le length_dropWhile_le)

text \<open>Steps 2 to 6 of \<open>sanitizeInput\<close>: the value of \<open>cleaned\<close> before truncation.\<close>

definition cleanText :: "string \<Rightarrow> string" where
  "cleanText text =
     trim (collapseNewlines (replaceCR (replaceCRLF (removeControlChars (trim text)))))"

definition sanitizeInput :: "Config \<Rightarrow> string \<Rightarrow> SanitizeResult" where
  "sanitizeInput cfg text =
     (let originalLength = int (length text);
          cleaned = cleanText text;
          lengthAfterCleaning = int (length cleaned);
          removedCharacters = originalLength - lengthAfterCleaning;
          maxLength = maxLength (textProcessing cfg);
          wasTruncated = (int (length cleaned) > maxLength);
          cleaned = (if wasTruncated then substring0 cleaned maxLength else cleaned);
          finalLength = int (length cleaned)
      in \<lparr> sanitizedText = cleaned,
           wasTruncated = wasTruncated,
           originalLength = originalLength,
           finalLength = finalLength,
           removedCharacters = removedCharacters \<rparr>)"

section \<open>Rate limiting\<close>

record RateLimitEntry =
  count :: int
  windowStart :: int

record RateLimitResult =
  allowed :: bool
  remaining :: int
  resetTime :: int
  retryAfter :: "int option"

text \<open>
  \<open>rateLimitStore\<close> is a JavaScript \<open>Map\<close>: keys are unique and iteration follows insertion
  order. It is an association list; \<open>Map.get\<close> is \<^const>\<open>map_of\<close>, \<open>Map.set\<close> is
  \<^const>\<open>AList.update\<close> (in place for a known key, at the end for a new one) and \<open>Map.delete\<close> is
  \<^const>\<open>AList.delete\<close>. The functions take the store and the value of \<open>Date.now()\<close> as
  arguments and return the store they leave behind.
\<close>

type_synonym RateLimitStore = "(string \<times> RateLimitEntry) list"

definition windowDuration :: "Config \<Rightarrow> int" where
  "windowDuration cfg = windowMinutes (rateLimit cfg) * 60 * 1000"

text \<open>
  \<open>entry\<close> is a reference to the object held by the store, so the assignments to its fields
  change the stored entry: the store returned maps the address to the final value of \<open>entry\<close>.
\<close>

definition checkRateLimit ::
  "Config \<Rightarrow> int \<Rightarrow> string \<Rightarrow> RateLimitStore \<Rightarrow> RateLimitResult \<times> RateLimitStore" where
  "checkRateLimit cfg now ipAddress store =
     (let entry =
            (case map_of store ipAddress of
               None \<Rightarrow> \<lparr> count = 0, windowStart = now \<rparr>
             | Some e \<Rightarrow>
                 (let windowAge = now - windowStart e
                  in if windowAge \<ge> windowDuration cfg
                     then e\<lparr> count := 0, windowStart := now \<rparr>
                     else e));
          maxRequests = maxRequests (rateLimit cfg);
          allowed = (count entry < maxRequests);
          entry = (if allowed then entry\<lparr> count := count entry + 1 \<rparr> else entry);
          remaining = max 0 (maxRequests - count entry);
          resetTime = windowStart entry + windowDuration cfg;
          retryAfter =
            (if \<not> allowed then Some \<lceil>real_of_int (resetTime - now) / 1000\<rceil> else None)
      in (\<lparr> allowed = allowed, remaining = remaining, resetTime = resetTime,
            retryAfter = retryAfter \<rparr>,
          AList.update ipAddress entry store))"

definition resetRateLimit :: "string \<Rightarrow> RateLimitStore \<Rightarrow> bool \<times> RateLimitStore" where
  "resetRateLimit ipAddress store =
     (map_of store ipAddress \<noteq> None, AList.delete ipAddress store)"

definition clearAllRateLimits :: "RateLimitStore \<Rightarrow> RateLimitStore" where
  "clearAllRateLimits store = []"

text \<open>\<open>getRateLimitStatus\<close> calls \<open>rateLimitStore.get\<close> and reads the entry; it assigns nothing.\<close>

definition getRateLimitStatus ::
  "Config \<Rightarrow> int \<Rightarrow> string \<Rightarrow> RateLimitStore \<Rightarrow> RateLimitResult \<times> RateLimitStore" where
  "getRateLimitStatus cfg now ipAddress store =
     (case map_of store ipAddress of
        None \<Rightarrow>
          (\<lparr> allowed = True, remaining = maxRequests (rateLimit cfg),
             resetTime = now + windowDuration cfg, retryAfter = None \<rparr>, store)
      | Some entry \<Rightarrow>
          (let windowAge = now - windowStart entry
           in if windowAge \<ge> windowDuration cfg
              then (\<lparr> allowed = True, remaining = maxRequests (rateLimit cfg),
                      resetTime = now + windowDuration cfg, retryAfter = None \<rparr>, store)
              else
                (let maxRequests = maxRequests (rateLimit cfg);
                     allowed = (count entry < maxRequests);
                     remaining = max 0 (maxRequests - count entry);
                     resetTime = windowStart entry + windowDuration cfg;
                     retryAfter =
                       (if \<not> allowed then Some \<lceil>real_of_int (resetTime - now) / 1000\<rceil>
                        else None)
                 in (\<lparr> allowed = allowed, remaining = remaining, resetTime = resetTime,
                       retryAfter = retryAfter \<rparr>, store))))"

definition cleanupExpiredEntries ::
  "Config \<Rightarrow> int \<Rightarrow> RateLimitStore \<Rightarrow> nat \<times> RateLimitStore" where
  "cleanupExpiredEntries cfg now store =
     (let ipsToDelete =
            map fst (filter (\<lambda>(ipAddress, entry). now - windowStart entry \<ge> windowDuration cfg)
                       store)
      in (length ipsToDelete, fold AList.delete ipsToDelete store))"

text \<open>
  A call of the module's interface, with the value \<open>Date.now()\<close> has during the call where the
  function reads the clock, and what the call returns.
\<close>

datatype RateLimitCall =
    CheckRateLimit int string
  | GetRateLimitStatus int string
  | ResetRateLimit string
  | ClearAllRateLimits
  | CleanupExpiredEntries int

datatype RateLimitReturn =
    ReturnResult RateLimitResult
  | ReturnBool bool
  | ReturnVoid
  | ReturnCount nat

fun call :: "Config \<Rightarrow> RateLimitCall \<Rightarrow> RateLimitStore \<Rightarrow> RateLimitReturn \<times> RateLimitStore" where
  "call cfg (CheckRateLimit now ip) store =
     (let (r, store') = checkRateLimit cfg now ip store in (ReturnResult r, store'))"
| "call cfg (GetRateLimitStatus now ip) store =
     (let (r, store') = getRateLimitStatus cfg now ip store in (ReturnResult r, store'))"
| "call cfg (ResetRateLimit ip) store =
     (let (b, store') = resetRateLimit ip store in (ReturnBool b, store'))"
| "call cfg ClearAllRateLimits store = (ReturnVoid, clearAllRateLimits store)"
| "call cfg (CleanupExpiredEntries now) store =
     (let (n, store') = cleanupExpiredEntries cfg now store in (ReturnCount n, store'))"

text \<open>A sequence of calls, one after the other: what each returns, and the final store.\<close>

fun calls :: "Config \<Rightarrow> RateLimitCall list \<Rightarrow> RateLimitStore \<Rightarrow> RateLimitReturn list \<times> RateLimitStore" where
  "calls cfg [] store = ([], store)"
| "calls cfg (c # cs) store =
     (let (r, store') = call cfg c store;
          (rs, store'') = calls cfg cs store'
      in (r # rs, store''))"

fun isGetRateLimitStatus :: "RateLimitCall \<Rightarrow> bool" where
  "isGetRateLimitStatus (GetRateLimitStatus now ip) = True"
| "isGetRateLimitStatus c = False"

text \<open>Every stored counter lies between 0 and the configured maximum.\<close>

definition countsWithinLimit :: "Config \<Rightarrow> RateLimitStore \<Rightarrow> bool" where
  "countsWithinLimit cfg store =
     list_all (\<lambda>(ip, entry). 0 \<le> count entry \<and> count entry \<le> maxRequests (rateLimit cfg)) store"

text \<open>The defaults of the configuration module, and the same with three requests per hour.\<close>

definition defaultConfig :: Config where
  "defaultConfig =
     \<lparr> rateLimit = \<lparr> maxRequests = 10, windowMinutes = 60 \<rparr>,
       textProcessing = \<lparr> maxLength = 5000 \<rparr> \<rparr>"

definition threePerHour :: Config where
  "threePerHour = defaultConfig\<lparr> rateLimit := \<lparr> maxRequests = 3, windowMinutes = 60 \<rparr> \<rparr>"

section \<open>Client address extraction\<close>

text \<open>
  A header value is \<open>string | string[] | undefined\<close>; a header mapping is a partial map, with
  \<open>None\<close> for \<open>undefined\<close>. An exception is the left summand: \<open>FailedToParse\<close> and
  \<open>InvalidAiFlag\<close> are the two \<open>Error\<close>s that \<open>parseDetectionResult\<close> throws itself,
  \<open>TypeError\<close> is the one the runtime raises when a method of \<open>undefined\<close>, or a method
  that a value does not have, is called.
\<close>

datatype HeaderValue = HString string | HArray "string list"

datatype error = FailedToParse | InvalidAiFlag | TypeError

text \<open>\<open>if (ip)\<close>: \<open>undefined\<close> and the empty string are falsy, every array is truthy.\<close>

fun truthyHeader :: "HeaderValue option \<Rightarrow> bool" where
  "truthyHeader None = False"
| "truthyHeader (Some (HString s)) = (s \<noteq> [])"
| "truthyHeader (Some (HArray xs)) = True"

text \<open>
  \<open>if (Array.isArray(ip)) { ip = ip[0]; }\<close>: the value of \<open>ip\<close> afterwards, \<open>None\<close> when it
  is \<open>undefined\<close> (index 0 of an empty array).
\<close>

fun firstIfArray :: "HeaderValue option \<Rightarrow> string option" where
  "firstIfArray None = None"
| "firstIfArray (Some (HString s)) = Some s"
| "firstIfArray (Some (HArray [])) = None"
| "firstIfArray (Some (HArray (x # xs))) = Some x"

text \<open>\<open>ip.split(',')[0]\<close>: the part before the first comma.\<close>

definition splitFirst :: "string \<Rightarrow> string" where
  "splitFirst s = takeWhile (\<lambda>c. c \<noteq> CHR '','') s"

text \<open>Calling \<open>.split\<close> or \<open>.trim\<close> on \<open>undefined\<close> raises a \<open>TypeError\<close>.\<close>

definition extractIPAddress :: "(string \<rightharpoonup> HeaderValue) \<Rightarrow> error + string" where
  "extractIPAddress headers =
     (let ip = headers ''x-forwarded-for'' in
      if truthyHeader ip then
        (case firstIfArray ip of
           None \<Rightarrow> Inl TypeError
         | Some s \<Rightarrow> Inr (trim (splitFirst s)))
      else
     (let ip = headers ''x-real-ip'' in
      if truthyHeader ip then
        (case firstIfArray ip of
           None \<Rightarrow> Inl TypeError
         | Some s \<Rightarrow> Inr (trim s))
      else
     (let ip = headers ''cf-connecting-ip'' in
      if truthyHeader ip then
        (case firstIfArray ip of
           None \<Rightarrow> Inl TypeError
         | Some s \<Rightarrow> Inr (trim s))
      else
     (let ip = headers ''x-client-ip'' in
      if truthyHeader ip then
        (case firstIfArray ip of
           None \<Rightarrow> Inl TypeError
         | Some s \<Rightarrow> Inr (trim s))
      else Inr ''unknown''))))"

section \<open>Parsing the detection result\<close>

subsection \<open>Values returned by \<open>JSON.parse\<close>\<close>

text \<open>
  The values \<open>JSON.parse\<close> can return. A number carries the exact value of its literal
  (JavaScript rounds it to a double); the code below only tests it for being zero. An object
  keeps its members in the order of the text; a later member with the same key overrides an
  earlier one.
\<close>

datatype json =
    JNull
  | JBool bool
  | JNumber rat
  | JString string
  | JArray "json list"
  | JObject "(string \<times> json) list"

text \<open>
  Reading a property of a value other than \<open>null\<close>; \<open>None\<close> is \<open>undefined\<close>. Booleans, numbers,
  strings and arrays have no property with any of the names read below.
\<close>

fun getProperty :: "json \<Rightarrow> string \<Rightarrow> json option" where
  "getProperty (JObject members) name = map_of (rev members) name"
| "getProperty v name = None"

text \<open>Truthiness: \<open>undefined\<close>, \<open>null\<close>, \<open>false\<close>, \<open>0\<close> and \<open>''\<close> are falsy.\<close>

fun truthy :: "json option \<Rightarrow> bool" where
  "truthy None = False"
| "truthy (Some JNull) = False"
| "truthy (Some (JBool b)) = b"
| "truthy (Some (JNumber n)) = (n \<noteq> 0)"
| "truthy (Some (JString s)) = (s \<noteq> [])"
| "truthy (Some (JArray xs)) = True"
| "truthy (Some (JObject members)) = True"

text \<open>\<open>String.prototype.toLowerCase\<close> on the modelled code units: A to Z and the Latin-1 capitals.\<close>

definition toLowerChar :: "char \<Rightarrow> char" where
  "toLowerChar c =
     (let n = (of_char c :: nat)
      in if (65 \<le> n \<and> n \<le> 90) \<or> (192 \<le> n \<and> n \<le> 222 \<and> n \<noteq> 215)
         then char_of (n + 32) else c)"

definition toLowerCase :: "string \<Rightarrow> string" where
  "toLowerCase s = map toLowerChar s"

subsection \<open>The result\<close>

record AIIndicator =
  type :: string
  snippet :: string
  explanation :: string

datatype Confidence = Low | Medium | High

record DetectionResult =
  aiFlag :: bool
  confidence :: Confidence
  categoriesFound :: "string list"
  indicators :: "AIIndicator list"
  reasoning :: string

subsection \<open>\<open>parseDetectionResult\<close>\<close>

text \<open>
  Step 3. \<open>parsed.confidence.toLowerCase()\<close> is called on every truthy value; only strings have
  the method.
\<close>

definition normalizeConfidence :: "json option \<Rightarrow> error + Confidence" where
  "normalizeConfidence c =
     (if truthy c then
        (case c of
           Some (JString s) \<Rightarrow>
             (let normalizedConfidence = toLowerCase s
              in if normalizedConfidence = ''low'' then Inr Low
                 else if normalizedConfidence = ''medium'' then Inr Medium
                 else if normalizedConfidence = ''high'' then Inr High
                 else Inr Medium)
         | _ \<Rightarrow> Inl TypeError)
      else Inr Medium)"

text \<open>
  Step 4. \<open>.filter(cat => typeof cat === 'string').map(cat => cat.trim())
  .filter(cat => cat.length > 0)\<close> on an array, the empty list for any other value.
\<close>

definition normalizeCategories :: "json option \<Rightarrow> string list" where
  "normalizeCategories c =
     (if truthy c then
        (case c of
           Some (JArray cats) \<Rightarrow>
             filter (\<lambda>cat. length cat > 0)
               (map trim
                 (List.map_filter (\<lambda>cat. case cat of JString s \<Rightarrow> Some s | _ \<Rightarrow> None) cats))
         | _ \<Rightarrow> [])
      else [])"

text \<open>
  Step 5, the filter: \<open>ind && typeof ind.type === 'string' && ind.type.trim().length > 0\<close>.
\<close>

definition hasType :: "json \<Rightarrow> bool" where
  "hasType ind =
     (truthy (Some ind) \<and>
      (case getProperty ind ''type'' of
         Some (JString t) \<Rightarrow> length (trim t) > 0
       | _ \<Rightarrow> False))"

text \<open>
  \<open>x?.trim() || ''\<close>: the optional chain stops at \<open>undefined\<close> and \<open>null\<close> only; on any other
  value \<open>trim\<close> is called, and only strings have it.
\<close>

fun trimOrEmpty :: "json option \<Rightarrow> error + string" where
  "trimOrEmpty None = Inr ''''"
| "trimOrEmpty (Some JNull) = Inr ''''"
| "trimOrEmpty (Some (JString s)) = Inr (trim s)"
| "trimOrEmpty (Some v) = Inl TypeError"

text \<open>Step 5, the function mapped over the indicators that passed the filter.\<close>

definition normalizeIndicator :: "json \<Rightarrow> error + AIIndicator" where
  "normalizeIndicator ind =
     (case getProperty ind ''type'' of
        Some (JString t) \<Rightarrow>
          (case trimOrEmpty (getProperty ind ''snippet'') of
             Inl e \<Rightarrow> Inl e
           | Inr s \<Rightarrow>
               (case trimOrEmpty (getProperty ind ''explanation'') of
                  Inl e \<Rightarrow> Inl e
                | Inr x \<Rightarrow> Inr \<lparr> type = trim t, snippet = s, explanation = x \<rparr>))
      | _ \<Rightarrow> Inl TypeError)"

text \<open>\<open>Array.prototype.map\<close> with a callback that may throw: the first exception ends it.\<close>

fun mapThrowing :: "('a \<Rightarrow> error + 'b) \<Rightarrow> 'a list \<Rightarrow> error + 'b list" where
  "mapThrowing f [] = Inr []"
| "mapThrowing f (x # xs) =
     (case f x of
        Inl e \<Rightarrow> Inl e
      | Inr y \<Rightarrow> (case mapThrowing f xs of Inl e \<Rightarrow> Inl e | Inr ys \<Rightarrow> Inr (y # ys)))"

definition normalizeIndicators :: "json option \<Rightarrow> error + AIIndicator list" where
  "normalizeIndicators i =
     (if truthy i then
        (case i of
           Some (JArray inds) \<Rightarrow> mapThrowing normalizeIndicator (filter hasType inds)
         | _ \<Rightarrow> Inr [])
      else Inr [])"

text \<open>Step 6.\<close>

definition normalizeReasoning :: "json option \<Rightarrow> string" where
  "normalizeReasoning r =
     (case r of
        Some (JString s) \<Rightarrow> if length (trim s) > 0 then trim s else ''No reasoning provided''
      | _ \<Rightarrow> ''No reasoning provided'')"

text \<open>
  Steps 2 to 7, on the value returned by \<open>JSON.parse\<close>. Reading \<open>parsed.aiFlag\<close> of \<open>null\<close>
  raises a \<open>TypeError\<close>; \<open>InvalidAiFlag\<close> is the \<open>Error\<close> thrown in step 2.
\<close>

definition normalizeParsed :: "json \<Rightarrow> error + DetectionResult" where
  "normalizeParsed parsed =
     (case parsed of
        JNull \<Rightarrow> Inl TypeError
      | _ \<Rightarrow>
        (case getProperty parsed ''aiFlag'' of
           Some (JBool flag) \<Rightarrow>
             (case normalizeConfidence (getProperty parsed ''confidence'') of
                Inl e \<Rightarrow> Inl e
              | Inr conf \<Rightarrow>
                  (let cats = normalizeCategories (getProperty parsed ''categoriesFound'')
                   in case normalizeIndicators (getProperty parsed ''indicators'') of
                        Inl e \<Rightarrow> Inl e
                      | Inr inds \<Rightarrow>
                          (let why = normalizeReasoning (getProperty parsed ''reasoning'')
                           in Inr \<lparr> aiFlag = flag,
                                    confidence = conf,
                                    categoriesFound = cats,
                                    indicators = inds,
                                    reasoning = why \<rparr>)))
         | _ \<Rightarrow> Inl InvalidAiFlag))"

text \<open>
  \<open>parseDetectionResult\<close>, with \<open>JSON.parse\<close> as a parameter: \<open>None\<close> when it throws, which
  the function catches and answers with the \<open>Error\<close> of step 1 (\<open>FailedToParse\<close> here).
\<close>

definition parseDetectionResult ::
  "(string \<Rightarrow> json option) \<Rightarrow> string \<Rightarrow> error + DetectionResult" where
  "parseDetectionResult JSON_parse responseContent =
     (case JSON_parse responseContent of
        None \<Rightarrow> Inl FailedToParse
      | Some parsed \<Rightarrow> normalizeParsed parsed)"

subsection \<open>\<open>createNotificationMessage\<close>\<close>

definition confidenceString :: "Confidence \<Rightarrow> string" where
  "confidenceString c = (case c of Low \<Rightarrow> ''low'' | Medium \<Rightarrow> ''medium'' | High \<Rightarrow> ''high'')"

text \<open>\<open>Array.prototype.join\<close>\<close>

fun join :: "string \<Rightarrow> string list \<Rightarrow> string" where
  "join sep [] = []"
| "join sep [x] = x"
| "join sep (x # y # ys) = x @ sep @ join sep (y # ys)"

text \<open>A natural number in decimal, as a template literal prints it.\<close>

fun decimal :: "nat \<Rightarrow> string" where
  "decimal n =
     (if n < 10 then [char_of (48 + n)]
      else decimal (n div 10) @ [char_of (48 + n mod 10)])"

text \<open>
  The warning sign U+26A0 U+FE0F that opens the message lies outside the modelled code units;
  it stands here as its UTF-8 bytes. Nothing measures or inspects it.
\<close>

definition warningSign :: string where
  "warningSign = [CHR 0xE2, CHR 0x9A, CHR 0xA0, CHR 0xEF, CHR 0xB8, CHR 0x8F]"

definition createNotificationMessage :: "DetectionResult \<Rightarrow> string" where
  "createNotificationMessage result =
     (if \<not> aiFlag result then ''No AI-generated patterns detected.''
      else
        (let categoryCount = length (categoriesFound result);
             indicatorCount = length (indicators result);
             message = warningSign @ '' Possible AI-generated content detected (''
                         @ confidenceString (confidence result) @ '' confidence)'';
             message =
               (if categoryCount > 0
                then message @ [LF, LF] @ ''Categories found: ''
                       @ join '', '' (categoriesFound result)
                else message);
             message =
               (if indicatorCount > 0
                then message @ [LF, LF] @ decimal indicatorCount @ '' specific indicator''
                       @ (if indicatorCount > 1 then ''s'' else '''') @ '' identified.''
                else message);
             message =
               (if reasoning result \<noteq> [] \<and> reasoning result \<noteq> ''No reasoning provided''
                then
                  (let maxReasoningLength = 150;
                       reasoning =
                         (if length (reasoning result) > maxReasoningLength
                          then take maxReasoningLength (reasoning result) @ ''...''
                          else reasoning result)
                   in message @ [LF, LF] @ reasoning)
                else message)
         in message))"

subsection \<open>A reader for JSON texts\<close>

text \<open>
  The properties of \<open>parseDetectionResult\<close> hold for whatever \<open>JSON.parse\<close> returns. To run
  the function on a reply given as text, this is a reader for the JSON grammar (ECMA-404) on
  the modelled code units. White space is tab, line feed, carriage return and space. A string
  has no raw control character; a backslash is followed by a quote, a backslash, a slash, one
  of the letters b, f, n, r, t, or by u and four hexadecimal digits. A number is an optional
  minus sign, the digit 0 or a digit sequence not starting with 0, an optional fraction (a dot
  and digits) and an optional exponent (e or E, an optional sign, digits). An escape that names
  a code unit above U+00FF lies outside the model and is not read.
\<close>

definition isJsonWhiteSpace :: "char \<Rightarrow> bool" where
  "isJsonWhiteSpace c = (c = CHR 0x09 \<or> c = LF \<or> c = CR \<or> c = CHR '' '')"

definition skipWhiteSpace :: "string \<Rightarrow> string" where
  "skipWhiteSpace s = dropWhile isJsonWhiteSpace s"

definition isDigit :: "char \<Rightarrow> bool" where
  "isDigit c = (let n = (of_char c :: nat) in 48 \<le> n \<and> n \<le> 57)"

definition hexValue :: "char \<Rightarrow> nat option" where
  "hexValue c =
     (let n = (of_char c :: nat)
      in if 48 \<le> n \<and> n \<le> 57 then Some (n - 48)
         else if 65 \<le> n \<and> n \<le> 70 then Some (n - 55)
         else if 97 \<le> n \<and> n \<le> 102 then Some (n - 87)
         else None)"

text \<open>The value of a sequence of decimal digits.\<close>

definition digitsValue :: "string \<Rightarrow> nat" where
  "digitsValue ds = foldl (\<lambda>v c. 10 * v + (of_char c - 48)) 0 ds"

text \<open>The character a single-letter escape stands for.\<close>

definition unescape :: "char \<Rightarrow> char option" where
  "unescape c =
     (if c = CHR 0x22 then Some (CHR 0x22)
      else if c = CHR 0x5C then Some (CHR 0x5C)
      else if c = CHR ''/'' then Some (CHR ''/'')
      else if c = CHR ''b'' then Some (CHR 0x08)
      else if c = CHR ''f'' then Some (CHR 0x0C)
      else if c = CHR ''n'' then Some LF
      else if c = CHR ''r'' then Some CR
      else if c = CHR ''t'' then Some (CHR 0x09)
      else None)"

text \<open>
  The characters of a string after its opening quote, up to the closing quote: the string
  read (collected in reverse in the first argument) and the rest of the text.
\<close>

fun readString :: "string \<Rightarrow> string \<Rightarrow> (string \<times> string) option" where
  "readString acc [] = None"
| "readString acc (c # cs) =
     (if c = CHR 0x22 then Some (rev acc, cs)
      else if c = CHR 0x5C then
        (case cs of
           [] \<Rightarrow> None
         | e # es \<Rightarrow>
             if e = CHR ''u'' then
               (case es of
                  h1 # h2 # h3 # h4 # rest \<Rightarrow>
                    (case (hexValue h1, hexValue h2, hexValue h3, hexValue h4) of
                       (Some a, Some b, Some c, Some d) \<Rightarrow>
                         if a = 0 \<and> b = 0 then readString (char_of (16 * c + d) # acc) rest
                         else None
                     | _ \<Rightarrow> None)
                | _ \<Rightarrow> None)
             else
               (case unescape e of
                  None \<Rightarrow> None
                | Some x \<Rightarrow> readString (x # acc) es))
      else if (of_char c :: nat) < 32 then None
      else readString (c # acc) cs)"

text \<open>A number at the head of the text: its value and the rest of the text.\<close>

definition readNumber :: "string \<Rightarrow> (rat \<times> string) option" where
  "readNumber s =
     (let (negative, s1) =
            (case s of c # cs \<Rightarrow> if c = CHR ''-'' then (True, cs) else (False, s) | [] \<Rightarrow> (False, s));
          (intDigits, s2) =
            (case s1 of
               c # cs \<Rightarrow>
                 if c = CHR ''0'' then ([c], cs)
                 else (takeWhile isDigit s1, dropWhile isDigit s1)
             | [] \<Rightarrow> ([], s1))
      in if intDigits = [] then None
         else
           (let fraction =
                  (case s2 of
                     c # cs \<Rightarrow>
                       if c = CHR ''.''
                       then (if takeWhile isDigit cs = [] then None
                             else Some (takeWhile isDigit cs, dropWhile isDigit cs))
                       else Some ([], s2)
                   | [] \<Rightarrow> Some ([], s2))
            in case fraction of
                 None \<Rightarrow> None
               | Some (fracDigits, s3) \<Rightarrow>
                   (let exponent =
                          (case s3 of
                             c # cs \<Rightarrow>
                               if c = CHR ''e'' \<or> c = CHR ''E'' then
                                 (let (negExp, s4) =
                                        (case cs of
                                           d # ds \<Rightarrow>
                                             if d = CHR ''-'' then (True, ds)
                                             else if d = CHR ''+'' then (False, ds)
                                             else (False, cs)
                                         | [] \<Rightarrow> (False, cs))
                                  in if takeWhile isDigit s4 = [] then None
                                     else Some (negExp, digitsValue (takeWhile isDigit s4),
                                                dropWhile isDigit s4))
                               else Some (False, 0, s3)
                           | [] \<Rightarrow> Some (False, 0, s3))
                    in case exponent of
                         None \<Rightarrow> None
                       | Some (negExp, e, s5) \<Rightarrow>
                           (let mantissa = of_nat (digitsValue (intDigits @ fracDigits))
                                             / 10 ^ length fracDigits;
                                magnitude = (if negExp then mantissa / 10 ^ e else mantissa * 10 ^ e)
                            in Some (if negative then - magnitude else magnitude, s5)))))"

text \<open>
  A value, the elements of an array after its \<open>[\<close>, and the members of an object after its
  \<open>{\<close>. The first argument bounds the depth of the calls; \<open>JSON_parse\<close> starts with
  twice the length of the text, plus two.
\<close>

fun readValue :: "nat \<Rightarrow> string \<Rightarrow> (json \<times> string) option"
  and readElements :: "nat \<Rightarrow> string \<Rightarrow> (json list \<times> string) option"
  and readMembers :: "nat \<Rightarrow> string \<Rightarrow> ((string \<times> json) list \<times> string) option" where
  "readValue 0 s = None"
| "readValue (Suc n) s =
     (case skipWhiteSpace s of
        [] \<Rightarrow> None
      | c # cs \<Rightarrow>
          if c = CHR ''{'' then
            (case skipWhiteSpace cs of
               [] \<Rightarrow> None
             | d # ds \<Rightarrow>
                 if d = CHR ''}'' then Some (JObject [], ds)
                 else map_option (\<lambda>(members, rest). (JObject members, rest))
                        (readMembers n (d # ds)))
          else if c = CHR ''['' then
            (case skipWhiteSpace cs of
               [] \<Rightarrow> None
             | d # ds \<Rightarrow>
                 if d = CHR '']'' then Some (JArray [], ds)
                 else map_option (\<lambda>(elements, rest). (JArray elements, rest))
                        (readElements n (d # ds)))
          else if c = CHR 0x22 then
            map_option (\<lambda>(str, rest). (JString str, rest)) (readString [] cs)
          else if take 4 (c # cs) = ''true'' then Some (JBool True, drop 4 (c # cs))
          else if take 5 (c # cs) = ''false'' then Some (JBool False, drop 5 (c # cs))
          else if take 4 (c # cs) = ''null'' then Some (JNull, drop 4 (c # cs))
          else map_option (\<lambda>(x, rest). (JNumber x, rest)) (readNumber (c # cs)))"
| "readElements 0 s = None"
| "readElements (Suc n) s =
     (case readValue n s of
        None \<Rightarrow> None
      | Some (v, rest) \<Rightarrow>
          (case skipWhiteSpace rest of
             [] \<Rightarrow> None
           | c # cs \<Rightarrow>
               if c = CHR '','' then
                 map_option (\<lambda>(vs, rest'). (v # vs, rest')) (readElements n cs)
               else if c = CHR '']'' then Some ([v], cs)
               else None))"
| "readMembers 0 s = None"
| "readMembers (Suc n) s =
     (case skipWhiteSpace s of
        [] \<Rightarrow> None
      | c # cs \<Rightarrow>
          if c = CHR 0x22 then
            (case readString [] cs of
               None \<Rightarrow> None
             | Some (key, rest) \<Rightarrow>
                 (case skipWhiteSpace rest of
                    [] \<Rightarrow> None
                  | d # ds \<Rightarrow>
                      if d = CHR '':'' then
                        (case readValue n ds of
                           None \<Rightarrow> None
                         | Some (v, rest') \<Rightarrow>
                             (case skipWhiteSpace rest' of
                                [] \<Rightarrow> None
                              | e # es \<Rightarrow>
                                  if e = CHR '','' then
                                    map_option (\<lambda>(ms, rest''). ((key, v) # ms, rest''))
                                      (readMembers n es)
                                  else if e = CHR ''}'' then Some ([(key, v)], es)
                                  else None))
                      else None))
          else None)"

text \<open>A JSON text is one value with white space around it and nothing else.\<close>

definition JSON_parse :: "string \<Rightarrow> json option" where
  "JSON_parse s =
     (case readValue (2 * length s + 2) s of
        None \<Rightarrow> None
      | Some (v, rest) \<Rightarrow> if skipWhiteSpace rest = [] then Some v else None)"

section \<open>Properties of the rate limiter\<close>

text \<open>
  Claim C3. With \<open>maxRequests = 3\<close>, no entry stored for the address, and every call made
  less than one window after the first, four consecutive calls of \<open>checkRateLimit\<close> for the
  same address return \<open>allowed = [true, true, true, false]\<close> and
  \<open>remaining = [2, 1, 0, 0]\<close>. The stored counter is 1, 2, 3 after the allowed calls and
  still 3 after the blocked one, which leaves the store as it found it.
\<close>

theorem checkRateLimit_four_calls:
  assumes "map_of store ip = None"
    and "maxRequests (rateLimit cfg) = 3"
    and "t2 - t1 < windowDuration cfg"
    and "t3 - t1 < windowDuration cfg"
    and "t4 - t1 < windowDuration cfg"
  shows "case checkRateLimit cfg t1 ip store of (r1, s1) \<Rightarrow>
         case checkRateLimit cfg t2 ip s1 of (r2, s2) \<Rightarrow>
         case checkRateLimit cfg t3 ip s2 of (r3, s3) \<Rightarrow>
         case checkRateLimit cfg t4 ip s3 of (r4, s4) \<Rightarrow>
           map allowed [r1, r2, r3, r4] = [True, True, True, False] \<and>
           map remaining [r1, r2, r3, r4] = [2, 1, 0, 0] \<and>
           map (\<lambda>s. map_option count (map_of s ip)) [s1, s2, s3, s4]
             = [Some 1, Some 2, Some 3, Some 3] \<and>
           s4 = s3"
  using assms by (simp add: checkRateLimit_def Let_def update_conv')

theorem checkRateLimit_four_calls_witness:
  "case checkRateLimit \<lparr> rateLimit = \<lparr> maxRequests = 3, windowMinutes = 60 \<rparr>,
                          textProcessing = \<lparr> maxLength = 5000 \<rparr> \<rparr> 1000 ''203.0.113.7'' []
   of (r1, s1) \<Rightarrow>
   case checkRateLimit \<lparr> rateLimit = \<lparr> maxRequests = 3, windowMinutes = 60 \<rparr>,
                          textProcessing = \<lparr> maxLength = 5000 \<rparr> \<rparr> 2000 ''203.0.113.7'' s1
   of (r2, s2) \<Rightarrow>
   case checkRateLimit \<lparr> rateLimit = \<lparr> maxRequests = 3, windowMinutes = 60 \<rparr>,
                          textProcessing = \<lparr> maxLength = 5000 \<rparr> \<rparr> 3000 ''203.0.113.7'' s2
   of (r3, s3) \<Rightarrow>
   case checkRateLimit \<lparr> rateLimit = \<lparr> maxRequests = 3, windowMinutes = 60 \<rparr>,
                          textProcessing = \<lparr> maxLength = 5000 \<rparr> \<rparr> 4000 ''203.0.113.7'' s3
   of (r4, s4) \<Rightarrow>
     map allowed [r1, r2, r3, r4] = [True, True, True, False] \<and>
     map remaining [r1, r2, r3, r4] = [2, 1, 0, 0] \<and>
     map (\<lambda>s. map_option count (map_of s ''203.0.113.7'')) [s1, s2, s3, s4]
       = [Some 1, Some 2, Some 3, Some 3] \<and>
     s4 = s3"
  by (rule checkRateLimit_four_calls) (simp_all add: windowDuration_def)

text \<open>
  Claim C5. When the entry of an address has used its whole quota
  (\<open>count = maxRequests\<close>, with \<open>maxRequests \<ge> 1\<close>) and its window has elapsed
  (\<open>now - windowStart \<ge> windowDuration\<close>), the next \<open>checkRateLimit\<close> is allowed with
  \<open>remaining = maxRequests - 1\<close>; the counter restarts (it is 1 after this request is
  counted) and the window starts at the time of the call.
\<close>

theorem checkRateLimit_window_reset:
  assumes "map_of store ip = Some e"
    and "count e = maxRequests (rateLimit cfg)"
    and "now - windowStart e \<ge> windowDuration cfg"
    and "1 \<le> maxRequests (rateLimit cfg)"
  shows "case checkRateLimit cfg now ip store of (r, store') \<Rightarrow>
           allowed r \<and> remaining r = maxRequests (rateLimit cfg) - 1 \<and>
           resetTime r = now + windowDuration cfg \<and> retryAfter r = None \<and>
           map_of store' ip = Some \<lparr> count = 1, windowStart = now \<rparr>"
  using assms by (simp add: checkRateLimit_def Let_def update_conv')

theorem checkRateLimit_window_reset_witness:
  "case checkRateLimit \<lparr> rateLimit = \<lparr> maxRequests = 3, windowMinutes = 60 \<rparr>,
                          textProcessing = \<lparr> maxLength = 5000 \<rparr> \<rparr> 3601000 ''203.0.113.7''
          [(''203.0.113.7'', \<lparr> count = 3, windowStart = 1000 \<rparr>)]
   of (r, store') \<Rightarrow>
     allowed r \<and> remaining r = 2 \<and> resetTime r = 7201000 \<and> retryAfter r = None \<and>
     map_of store' ''203.0.113.7'' = Some \<lparr> count = 1, windowStart = 3601000 \<rparr>"
  using checkRateLimit_window_reset
    [of "[(''203.0.113.7'', \<lparr> count = 3, windowStart = 1000 \<rparr>)]" "''203.0.113.7''"
        "\<lparr> count = 3, windowStart = 1000 \<rparr>"
        "\<lparr> rateLimit = \<lparr> maxRequests = 3, windowMinutes = 60 \<rparr>,
           textProcessing = \<lparr> maxLength = 5000 \<rparr> \<rparr>" 3601000]
  by (simp add: windowDuration_def)

subsection \<open>The status query and the counter bounds\<close>

lemma getRateLimitStatus_store: "snd (getRateLimitStatus cfg now ip store) = store"
  by (simp add: getRateLimitStatus_def Let_def split: option.splits)

lemma calls_skip_status:
  "map snd (filter (\<lambda>(c, r). \<not> isGetRateLimitStatus c) (zip cs (fst (calls cfg cs store))))
     = fst (calls cfg (filter (\<lambda>c. \<not> isGetRateLimitStatus c) cs) store) \<and>
   snd (calls cfg cs store) = snd (calls cfg (filter (\<lambda>c. \<not> isGetRateLimitStatus c) cs) store)"
proof (induction cs arbitrary: store)
  case Nil
  show ?case by simp
next
  case (Cons c cs)
  show ?case
  proof (cases "isGetRateLimitStatus c")
    case True
    then obtain now ip where c: "c = GetRateLimitStatus now ip"
      by (cases c) simp_all
    have "snd (call cfg c store) = store"
      using getRateLimitStatus_store [of cfg now ip store]
      by (simp add: c case_prod_beta)
    then show ?thesis
      using Cons.IH [of store] True by (simp add: case_prod_beta)
  next
    case False
    then show ?thesis
      using Cons.IH [of "snd (call cfg c store)"] by (simp add: case_prod_beta)
  qed
qed

lemma list_all_update:
  "list_all P al \<Longrightarrow> P (k, v) \<Longrightarrow> list_all P (AList.update k v al)"
  by (induction al) auto

lemma list_all_delete: "list_all P al \<Longrightarrow> list_all P (AList.delete k al)"
  by (simp add: AList.delete_eq list_all_iff)

lemma list_all_fold_delete: "list_all P al \<Longrightarrow> list_all P (fold AList.delete ks al)"
  by (induction ks arbitrary: al) (simp_all add: list_all_delete)

lemma map_of_list_all: "list_all P al \<Longrightarrow> map_of al k = Some v \<Longrightarrow> P (k, v)"
  by (auto simp: list_all_iff dest: map_of_SomeD)

lemma checkRateLimit_inv:
  assumes "0 \<le> maxRequests (rateLimit cfg)" and "countsWithinLimit cfg store"
  shows "countsWithinLimit cfg (snd (checkRateLimit cfg now ip store))"
proof (cases "map_of store ip")
  case None
  then show ?thesis
    using assms unfolding countsWithinLimit_def checkRateLimit_def
    by (auto simp: Let_def intro!: list_all_update)
next
  case (Some e)
  with assms(2) have "0 \<le> count e \<and> count e \<le> maxRequests (rateLimit cfg)"
    unfolding countsWithinLimit_def by (auto dest: map_of_list_all)
  then show ?thesis
    using assms Some unfolding countsWithinLimit_def checkRateLimit_def
    by (auto simp: Let_def intro!: list_all_update)
qed

lemma call_inv:
  assumes "0 \<le> maxRequests (rateLimit cfg)" and "countsWithinLimit cfg store"
  shows "countsWithinLimit cfg (snd (call cfg c store))"
proof (cases c)
  case (CheckRateLimit now ip)
  then show ?thesis
    using checkRateLimit_inv [OF assms, of now ip] by (simp add: case_prod_beta)
next
  case (GetRateLimitStatus now ip)
  then show ?thesis
    using getRateLimitStatus_store [of cfg now ip store] assms(2) by (simp add: case_prod_beta)
next
  case (ResetRateLimit ip)
  then show ?thesis
    using assms(2) by (simp add: resetRateLimit_def countsWithinLimit_def list_all_delete)
next
  case ClearAllRateLimits
  then show ?thesis
    by (simp add: clearAllRateLimits_def countsWithinLimit_def)
next
  case (CleanupExpiredEntries now)
  then show ?thesis
    using assms(2)
    by (simp add: cleanupExpiredEntries_def countsWithinLimit_def list_all_fold_delete)
qed

lemma calls_inv:
  assumes "0 \<le> maxRequests (rateLimit cfg)" and "countsWithinLimit cfg store"
  shows "countsWithinLimit cfg (snd (calls cfg cs store))"
  using assms(2)
proof (induction cs arbitrary: store)
  case Nil
  then show ?case by simp
next
  case (Cons c cs)
  from call_inv [OF assms(1) Cons.prems, of c]
  have "countsWithinLimit cfg (snd (call cfg c store))" .
  from Cons.IH [OF this] show ?case
    by (simp add: case_prod_beta)
qed

lemma checkRateLimit_remaining_exact:
  assumes "0 \<le> maxRequests (rateLimit cfg)" and "countsWithinLimit cfg store"
  shows "\<exists>e. map_of (snd (checkRateLimit cfg now ip store)) ip = Some e \<and>
             remaining (fst (checkRateLimit cfg now ip store)) = maxRequests (rateLimit cfg) - count e"
proof (cases "map_of store ip")
  case None
  then show ?thesis
    using assms(1) by (simp add: checkRateLimit_def Let_def update_conv')
next
  case (Some e)
  with assms(2) have "0 \<le> count e \<and> count e \<le> maxRequests (rateLimit cfg)"
    unfolding countsWithinLimit_def by (auto dest: map_of_list_all)
  then show ?thesis
    using assms(1) Some by (simp add: checkRateLimit_def Let_def update_conv')
qed

lemma getRateLimitStatus_remaining_exact:
  assumes "countsWithinLimit cfg store" and "map_of store ip = Some e"
    and "now - windowStart e < windowDuration cfg"
  shows "remaining (fst (getRateLimitStatus cfg now ip store)) = maxRequests (rateLimit cfg) - count e"
proof -
  from assms(1,2) have "0 \<le> count e \<and> count e \<le> maxRequests (rateLimit cfg)"
    unfolding countsWithinLimit_def by (auto dest: map_of_list_all)
  then show ?thesis
    using assms(2,3) by (simp add: getRateLimitStatus_def Let_def)
qed


text \<open>
  Claim C4. \<open>getRateLimitStatus\<close> leaves the store as it found it, whatever the address and
  the store: no entry is created, no counter or window changed. Hence in any sequence of calls
  the status queries can be dropped without changing what the other calls return or the final
  store. For an address with no entry, or with an entry whose window has elapsed, it reports
  \<open>allowed = true\<close> and \<open>remaining = maxRequests\<close> for a window that would start now.
\<close>

theorem getRateLimitStatus_read_only:
  "snd (getRateLimitStatus cfg now ip store) = store \<and>
   map snd (filter (\<lambda>(c, r). \<not> isGetRateLimitStatus c) (zip cs (fst (calls cfg cs store))))
     = fst (calls cfg (filter (\<lambda>c. \<not> isGetRateLimitStatus c) cs) store) \<and>
   snd (calls cfg cs store) = snd (calls cfg (filter (\<lambda>c. \<not> isGetRateLimitStatus c) cs) store) \<and>
   (map_of store ip = None \<or>
    (\<exists>entry. map_of store ip = Some entry \<and> now - windowStart entry \<ge> windowDuration cfg)
    \<longrightarrow> fst (getRateLimitStatus cfg now ip store)
          = \<lparr> allowed = True, remaining = maxRequests (rateLimit cfg),
              resetTime = now + windowDuration cfg, retryAfter = None \<rparr>)"
proof -
  have frame: "snd (getRateLimitStatus cfg now ip store) = store"
    by (rule getRateLimitStatus_store)
  have fresh: "fst (getRateLimitStatus cfg now ip store)
          = \<lparr> allowed = True, remaining = maxRequests (rateLimit cfg),
              resetTime = now + windowDuration cfg, retryAfter = None \<rparr>"
    if "map_of store ip = None \<or>
        (\<exists>entry. map_of store ip = Some entry \<and> now - windowStart entry \<ge> windowDuration cfg)"
    using that by (auto simp: getRateLimitStatus_def Let_def)
  from frame calls_skip_status [of cs cfg store] fresh show ?thesis
    by blast
qed

theorem getRateLimitStatus_read_only_witness:
  "(let store = [(''198.51.100.4'', \<lparr> count = 3, windowStart = 0 \<rparr>)];
        cs = [GetRateLimitStatus 5 ''198.51.100.4'', CheckRateLimit 10 ''203.0.113.7'',
              GetRateLimitStatus 20 ''203.0.113.7'', CheckRateLimit 3600000 ''198.51.100.4'']
    in snd (getRateLimitStatus threePerHour 3600000 ''198.51.100.4'' store) = store \<and>
       fst (getRateLimitStatus threePerHour 3600000 ''198.51.100.4'' store)
         = \<lparr> allowed = True, remaining = 3, resetTime = 7200000, retryAfter = None \<rparr> \<and>
       fst (getRateLimitStatus threePerHour 20 ''203.0.113.7'' store)
         = \<lparr> allowed = True, remaining = 3, resetTime = 3600020, retryAfter = None \<rparr> \<and>
       map snd (filter (\<lambda>(c, r). \<not> isGetRateLimitStatus c) (zip cs (fst (calls threePerHour cs store))))
         = [ReturnResult \<lparr> allowed = True, remaining = 2, resetTime = 3600010, retryAfter = None \<rparr>,
            ReturnResult \<lparr> allowed = True, remaining = 2, resetTime = 7200000, retryAfter = None \<rparr>] \<and>
       snd (calls threePerHour cs store)
         = [(''198.51.100.4'', \<lparr> count = 1, windowStart = 3600000 \<rparr>),
            (''203.0.113.7'', \<lparr> count = 1, windowStart = 10 \<rparr>)])"
proof -
  let ?store = "[(''198.51.100.4'', \<lparr> count = 3, windowStart = 0 \<rparr>)]"
  let ?cs = "[GetRateLimitStatus 5 ''198.51.100.4'', CheckRateLimit 10 ''203.0.113.7'',
              GetRateLimitStatus 20 ''203.0.113.7'', CheckRateLimit 3600000 ''198.51.100.4'']"
  have expired: "\<exists>entry. map_of ?store ''198.51.100.4'' = Some entry \<and>
                   3600000 - windowStart entry \<ge> windowDuration threePerHour"
    by (simp add: windowDuration_def threePerHour_def defaultConfig_def)
  have unknown: "map_of ?store ''203.0.113.7'' = None"
    by simp
  have run: "calls threePerHour (filter (\<lambda>c. \<not> isGetRateLimitStatus c) ?cs) ?store
     = ([ReturnResult \<lparr> allowed = True, remaining = 2, resetTime = 3600010, retryAfter = None \<rparr>,
         ReturnResult \<lparr> allowed = True, remaining = 2, resetTime = 7200000, retryAfter = None \<rparr>],
        [(''198.51.100.4'', \<lparr> count = 1, windowStart = 3600000 \<rparr>),
         (''203.0.113.7'', \<lparr> count = 1, windowStart = 10 \<rparr>)])"
    by (simp add: checkRateLimit_def windowDuration_def threePerHour_def defaultConfig_def)
  have rl: "maxRequests (rateLimit threePerHour) = 3" "windowDuration threePerHour = 3600000"
    by (simp_all add: windowDuration_def threePerHour_def defaultConfig_def)
  from getRateLimitStatus_read_only [of threePerHour 3600000 "''198.51.100.4''" ?store ?cs] expired
  have a: "snd (getRateLimitStatus threePerHour 3600000 ''198.51.100.4'' ?store) = ?store"
    and b: "map snd (filter (\<lambda>(c, r). \<not> isGetRateLimitStatus c) (zip ?cs (fst (calls threePerHour ?cs ?store))))
              = fst (calls threePerHour (filter (\<lambda>c. \<not> isGetRateLimitStatus c) ?cs) ?store)"
    and c: "snd (calls threePerHour ?cs ?store)
              = snd (calls threePerHour (filter (\<lambda>c. \<not> isGetRateLimitStatus c) ?cs) ?store)"
    and d: "fst (getRateLimitStatus threePerHour 3600000 ''198.51.100.4'' ?store)
              = \<lparr> allowed = True, remaining = maxRequests (rateLimit threePerHour),
                  resetTime = 3600000 + windowDuration threePerHour, retryAfter = None \<rparr>"
    by blast+
  from getRateLimitStatus_read_only [of threePerHour 20 "''203.0.113.7''" ?store ?cs] unknown
  have e: "fst (getRateLimitStatus threePerHour 20 ''203.0.113.7'' ?store)
              = \<lparr> allowed = True, remaining = maxRequests (rateLimit threePerHour),
                  resetTime = 20 + windowDuration threePerHour, retryAfter = None \<rparr>"
    by blast
  show ?thesis
    unfolding Let_def a b c d e run rl by simp
qed

text \<open>
  Claim C9. With \<open>maxRequests \<ge> 0\<close>, after any finite sequence of \<open>checkRateLimit\<close>,
  \<open>getRateLimitStatus\<close>, \<open>resetRateLimit\<close>, \<open>clearAllRateLimits\<close> and
  \<open>cleanupExpiredEntries\<close> calls from the empty store, every stored entry has
  \<open>0 \<le> count \<le> maxRequests\<close>. Consequently \<open>Math.max(0, maxRequests - entry.count)\<close>
  never clamps: the \<open>remaining\<close> returned by the next \<open>checkRateLimit\<close>, and by the next
  \<open>getRateLimitStatus\<close> on an active window, is exactly \<open>maxRequests - count\<close>.
\<close>

theorem rateLimitStore_counts_within_limit:
  assumes "0 \<le> maxRequests (rateLimit cfg)"
  shows "(let store = snd (calls cfg cs []) in
          (\<forall>(ip, entry) \<in> set store. 0 \<le> count entry \<and> count entry \<le> maxRequests (rateLimit cfg)) \<and>
          (\<forall>now ip. \<exists>entry.
             map_of (snd (checkRateLimit cfg now ip store)) ip = Some entry \<and>
             remaining (fst (checkRateLimit cfg now ip store))
               = maxRequests (rateLimit cfg) - count entry) \<and>
          (\<forall>now ip entry.
             map_of store ip = Some entry \<and> now - windowStart entry < windowDuration cfg \<longrightarrow>
             remaining (fst (getRateLimitStatus cfg now ip store))
               = maxRequests (rateLimit cfg) - count entry))"
proof -
  have "countsWithinLimit cfg []"
    by (simp add: countsWithinLimit_def)
  from calls_inv [OF assms this, of cs]
  have inv: "countsWithinLimit cfg (snd (calls cfg cs []))" .
  then have "\<forall>(ip, entry) \<in> set (snd (calls cfg cs [])).
               0 \<le> count entry \<and> count entry \<le> maxRequests (rateLimit cfg)"
    by (simp add: countsWithinLimit_def list_all_iff)
  moreover have "\<forall>now ip. \<exists>entry.
             map_of (snd (checkRateLimit cfg now ip (snd (calls cfg cs [])))) ip = Some entry \<and>
             remaining (fst (checkRateLimit cfg now ip (snd (calls cfg cs []))))
               = maxRequests (rateLimit cfg) - count entry"
    using checkRateLimit_remaining_exact [OF assms inv] by blast
  moreover have "\<forall>now ip entry.
             map_of (snd (calls cfg cs [])) ip = Some entry \<and>
             now - windowStart entry < windowDuration cfg \<longrightarrow>
             remaining (fst (getRateLimitStatus cfg now ip (snd (calls cfg cs []))))
               = maxRequests (rateLimit cfg) - count entry"
    using getRateLimitStatus_remaining_exact [OF inv] by blast
  ultimately show ?thesis
    by (simp add: Let_def)
qed

theorem rateLimitStore_counts_within_limit_witness:
  "(let cs = [CheckRateLimit 0 ''198.51.100.4'', CheckRateLimit 1 ''198.51.100.4'',
              CheckRateLimit 2 ''203.0.113.7'', CheckRateLimit 3 ''198.51.100.4'',
              CheckRateLimit 4 ''198.51.100.4'', GetRateLimitStatus 5 ''198.51.100.4'',
              ResetRateLimit ''192.0.2.1'', CleanupExpiredEntries 3600001];
        store = snd (calls threePerHour cs [])
    in store = [(''203.0.113.7'', \<lparr> count = 1, windowStart = 2 \<rparr>)] \<and>
       (\<forall>(ip, entry) \<in> set store. 0 \<le> count entry \<and> count entry \<le> 3) \<and>
       remaining (fst (checkRateLimit threePerHour 3600001 ''203.0.113.7'' store)) = 3 - 2 \<and>
       remaining (fst (getRateLimitStatus threePerHour 3600001 ''203.0.113.7'' store)) = 3 - 1)"
proof -
  let ?cs = "[CheckRateLimit 0 ''198.51.100.4'', CheckRateLimit 1 ''198.51.100.4'',
              CheckRateLimit 2 ''203.0.113.7'', CheckRateLimit 3 ''198.51.100.4'',
              CheckRateLimit 4 ''198.51.100.4'', GetRateLimitStatus 5 ''198.51.100.4'',
              ResetRateLimit ''192.0.2.1'', CleanupExpiredEntries 3600001]"
  have h: "0 \<le> maxRequests (rateLimit threePerHour)"
    by (simp add: threePerHour_def)
  have run: "snd (calls threePerHour ?cs []) = [(''203.0.113.7'', \<lparr> count = 1, windowStart = 2 \<rparr>)]"
    by (simp add: checkRateLimit_def getRateLimitStatus_def resetRateLimit_def
        cleanupExpiredEntries_def windowDuration_def threePerHour_def defaultConfig_def)
  have rl: "maxRequests (rateLimit threePerHour) = 3"
    by (simp add: threePerHour_def)
  from rateLimitStore_counts_within_limit [OF h, of ?cs]
  have bounds: "\<forall>(ip, entry) \<in> set (snd (calls threePerHour ?cs [])).
                  0 \<le> count entry \<and> count entry \<le> maxRequests (rateLimit threePerHour)"
    unfolding Let_def by (rule conjunct1)
  have c: "remaining (fst (checkRateLimit threePerHour 3600001 ''203.0.113.7''
             [(''203.0.113.7'', \<lparr> count = 1, windowStart = 2 \<rparr>)])) = 3 - 2"
    by (simp add: checkRateLimit_def windowDuration_def threePerHour_def defaultConfig_def)
  have g: "remaining (fst (getRateLimitStatus threePerHour 3600001 ''203.0.113.7''
             [(''203.0.113.7'', \<lparr> count = 1, windowStart = 2 \<rparr>)])) = 3 - 1"
    by (simp add: getRateLimitStatus_def windowDuration_def threePerHour_def defaultConfig_def)
  show ?thesis
    using bounds c g unfolding Let_def run rl by simp
qed

section \<open>Properties of the sanitizer\<close>

subsection \<open>Trimming\<close>

lemma trimEnd_prefix: "prefix (trimEnd s) s"
proof -
  have "trimEnd s @ rev (takeWhile isWhiteSpace (rev s))
          = rev (takeWhile isWhiteSpace (rev s) @ dropWhile isWhiteSpace (rev s))"
    by (simp only: trimEnd_def rev_append)
  also have "\<dots> = rev (rev s)"
    by (simp only: takeWhile_dropWhile_id)
  also have "\<dots> = s"
    by simp
  finally have "s = trimEnd s @ rev (takeWhile isWhiteSpace (rev s))"
    by (rule sym)
  then show ?thesis
    by (rule prefixI)
qed

lemma trimStart_suffix: "suffix (trimStart s) s"
  by (simp add: trimStart_def suffix_dropWhile)

lemma trim_sublist: "sublist (trim s) s"
proof -
  have "sublist (trimEnd (trimStart s)) (trimStart s)"
    by (rule prefix_imp_sublist [OF trimEnd_prefix])
  moreover have "sublist (trimStart s) s"
    by (rule suffix_imp_sublist [OF trimStart_suffix])
  ultimately show ?thesis
    unfolding trim_def by (rule sublist_order.order.trans)
qed

lemma set_trim: "set (trim s) \<subseteq> set s"
  by (rule set_mono_sublist [OF trim_sublist])

lemma trimStart_id: "s = [] \<or> \<not> isWhiteSpace (hd s) \<Longrightarrow> trimStart s = s"
  by (cases s) (simp_all add: trimStart_def)

lemma trimEnd_id: "s = [] \<or> \<not> isWhiteSpace (last s) \<Longrightarrow> trimEnd s = s"
proof (cases "s = []")
  case True
  then show ?thesis by (simp add: trimEnd_def)
next
  case False
  assume "s = [] \<or> \<not> isWhiteSpace (last s)"
  with False have "\<not> isWhiteSpace (hd (rev s))"
    by (simp add: hd_rev)
  moreover from False have "rev s \<noteq> []" by simp
  ultimately have "dropWhile isWhiteSpace (rev s) = rev s"
    by (cases "rev s") simp_all
  then show ?thesis by (simp add: trimEnd_def)
qed

lemma trimStart_hd: "trimStart s \<noteq> [] \<Longrightarrow> \<not> isWhiteSpace (hd (trimStart s))"
  unfolding trimStart_def by (rule hd_dropWhile)

lemma trimEnd_last: "trimEnd s \<noteq> [] \<Longrightarrow> \<not> isWhiteSpace (last (trimEnd s))"
proof -
  assume ne: "trimEnd s \<noteq> []"
  then have "dropWhile isWhiteSpace (rev s) \<noteq> []"
    by (simp add: trimEnd_def)
  then have "\<not> isWhiteSpace (hd (dropWhile isWhiteSpace (rev s)))"
    by (rule hd_dropWhile)
  then show ?thesis
    by (simp add: trimEnd_def last_rev)
qed

lemma trimEnd_hd: "trimEnd s \<noteq> [] \<Longrightarrow> hd (trimEnd s) = hd s"
proof -
  assume ne: "trimEnd s \<noteq> []"
  from trimEnd_prefix [of s] obtain zs where "s = trimEnd s @ zs"
    by (auto simp: prefix_def)
  then have "hd s = hd (trimEnd s @ zs)"
    by simp
  also have "\<dots> = hd (trimEnd s)"
    using ne by (rule hd_append2)
  finally show ?thesis
    by (rule sym)
qed

lemma trim_trimmed:
  "trim s = [] \<or> (\<not> isWhiteSpace (hd (trim s)) \<and> \<not> isWhiteSpace (last (trim s)))"
proof (cases "trim s = []")
  case True
  then show ?thesis by simp
next
  case False
  then have ne: "trimEnd (trimStart s) \<noteq> []"
    by (simp add: trim_def)
  then have "trimStart s \<noteq> []"
    by (auto simp: trimEnd_def)
  then have "\<not> isWhiteSpace (hd (trimStart s))"
    by (rule trimStart_hd)
  with trimEnd_hd [OF ne] trimEnd_last [OF ne] show ?thesis
    by (simp add: trim_def)
qed

lemma trim_id:
  "s = [] \<or> (\<not> isWhiteSpace (hd s) \<and> \<not> isWhiteSpace (last s)) \<Longrightarrow> trim s = s"
proof -
  assume a: "s = [] \<or> (\<not> isWhiteSpace (hd s) \<and> \<not> isWhiteSpace (last s))"
  then have "trimStart s = s"
    by (auto intro: trimStart_id)
  moreover from a have "trimEnd s = s"
    by (auto intro: trimEnd_id)
  ultimately show ?thesis
    by (simp add: trim_def)
qed

lemma trim_hd_end:
  assumes "s = [] \<or> \<not> isWhiteSpace (hd s)"
  shows "trim s = trimEnd s"
  using trimStart_id [OF assms] by (simp add: trim_def)

subsection \<open>The characters that cleaning removes\<close>

lemma LF_facts: "\<not> isControlChar LF" "LF \<noteq> CR"
  by (simp_all add: isControlChar_def LF_def CR_def)

lemma removeControlChars_id:
  "\<forall>c \<in> set s. \<not> isControlChar c \<Longrightarrow> removeControlChars s = s"
  by (simp add: removeControlChars_def)

lemma set_replaceCRLF: "set (replaceCRLF s) \<subseteq> set s"
  by (induction s rule: replaceCRLF.induct) auto

lemma replaceCRLF_id: "CR \<notin> set s \<Longrightarrow> replaceCRLF s = s"
  by (induction s rule: replaceCRLF.induct) auto

lemma replaceCR_id: "CR \<notin> set s \<Longrightarrow> replaceCR s = s"
  unfolding replaceCR_def by (rule map_idI) auto

lemma set_replaceCR: "c \<in> set (replaceCR s) \<Longrightarrow> c \<noteq> CR \<and> (c \<in> set s \<or> c = LF)"
  by (auto simp: replaceCR_def LF_facts)

lemma long_run_prefix:
  "3 \<le> length (takeWhile (\<lambda>x. x = LF) s) \<longleftrightarrow> prefix [LF, LF, LF] s"
proof (cases s)
  case Nil
  then show ?thesis by simp
next
  case s1: (Cons a as)
  show ?thesis
  proof (cases as)
    case Nil
    with s1 show ?thesis by simp
  next
    case s2: (Cons b bs)
    show ?thesis
    proof (cases bs)
      case Nil
      with s1 s2 show ?thesis by simp
    next
      case (Cons c cs)
      with s1 s2 show ?thesis by auto
    qed
  qed
qed

lemma set_collapseNewlines: "set (collapseNewlines s) \<subseteq> set s"
proof (induction s rule: collapseNewlines.induct)
  case 1
  show ?case by simp
next
  case (2 c cs)
  have "set (dropWhile (\<lambda>x. x = LF) (c # cs)) \<subseteq> set (c # cs)"
    by (rule set_dropWhileD [THEN subsetI])
  with 2 show ?case
    by (auto simp del: dropWhile.simps takeWhile.simps)
qed

lemma collapseNewlines_id: "\<not> sublist [LF, LF, LF] s \<Longrightarrow> collapseNewlines s = s"
proof (induction s rule: collapseNewlines.induct)
  case 1
  show ?case by simp
next
  case (2 c cs)
  from "2.prems" have np: "\<not> prefix [LF, LF, LF] (c # cs)" and ns: "\<not> sublist [LF, LF, LF] cs"
    by (auto simp: sublist_Cons_right)
  from np have short: "\<not> 3 \<le> length (takeWhile (\<lambda>x. x = LF) (c # cs))"
    by (simp only: long_run_prefix not_False_eq_True)
  with "2.IH"(2) ns have "collapseNewlines cs = cs"
    by blast
  with short show ?case
    by (simp del: takeWhile.simps)
qed

lemma collapseNewlines_head:
  "s = [] \<or> hd s \<noteq> LF \<Longrightarrow> collapseNewlines s = [] \<or> hd (collapseNewlines s) \<noteq> LF"
  by (cases s) auto

lemma collapseNewlines_prefix1: "prefix [LF] (collapseNewlines s) \<Longrightarrow> prefix [LF] s"
  by (cases s) (auto split: if_splits)

lemma collapseNewlines_prefix2:
  assumes p: "prefix [LF, LF] (collapseNewlines s)"
  shows "prefix [LF, LF] s"
proof (cases s)
  case Nil
  with p show ?thesis by simp
next
  case (Cons a as)
  show ?thesis
  proof (cases "a = LF \<and> 3 \<le> length (takeWhile (\<lambda>x. x = LF) (a # as))")
    case True
    then have "3 \<le> length (takeWhile (\<lambda>x. x = LF) (a # as))"
      by blast
    then have "prefix [LF, LF, LF] (a # as)"
      by (simp only: long_run_prefix)
    then show ?thesis
      using Cons by (auto simp: prefix_def)
  next
    case False
    with p Cons have "a = LF" and "prefix [LF] (collapseNewlines as)"
      by (auto simp del: takeWhile.simps)
    with collapseNewlines_prefix1 [of as] show ?thesis
      using Cons by simp
  qed
qed

lemma collapseNewlines_no_triple: "\<not> sublist [LF, LF, LF] (collapseNewlines s)"
proof (induction s rule: collapseNewlines.induct)
  case 1
  show ?case by simp
next
  case (2 c cs)
  show ?case
  proof (cases "c = LF \<and> 3 \<le> length (takeWhile (\<lambda>x. x = LF) (c # cs))")
    case True
    let ?r = "dropWhile (\<lambda>x. x = LF) (c # cs)"
    have "?r = [] \<or> hd ?r \<noteq> LF"
      using hd_dropWhile [of "\<lambda>x. x = LF" "c # cs"] by blast
    then have h: "collapseNewlines ?r = [] \<or> hd (collapseNewlines ?r) \<noteq> LF"
      by (rule collapseNewlines_head)
    from "2.IH"(1) True have n: "\<not> sublist [LF, LF, LF] (collapseNewlines ?r)"
      by blast
    have "\<not> sublist [LF, LF, LF] (LF # LF # collapseNewlines ?r)"
      using h n by (cases "collapseNewlines ?r") (auto simp: sublist_Cons_right)
    then show ?thesis
      unfolding collapseNewlines.simps(2) [of c cs] if_P [OF True] .
  next
    case False
    with "2.IH"(2) have n: "\<not> sublist [LF, LF, LF] (collapseNewlines cs)"
      by blast
    have "\<not> prefix [LF, LF, LF] (c # collapseNewlines cs)"
    proof
      assume "prefix [LF, LF, LF] (c # collapseNewlines cs)"
      then have c: "c = LF" and "prefix [LF, LF] (collapseNewlines cs)"
        by simp_all
      then have "prefix [LF, LF] cs"
        using collapseNewlines_prefix2 by blast
      with c have "prefix [LF, LF, LF] (c # cs)"
        by simp
      then have "3 \<le> length (takeWhile (\<lambda>x. x = LF) (c # cs))"
        by (simp only: long_run_prefix)
      with c False show False
        by blast
    qed
    with n have "\<not> sublist [LF, LF, LF] (c # collapseNewlines cs)"
      by (simp add: sublist_Cons_right)
    then show ?thesis
      unfolding collapseNewlines.simps(2) [of c cs] if_not_P [OF False] .
  qed
qed

lemma cleanText_of_clean:
  assumes chars: "\<forall>c \<in> set s. \<not> isControlChar c \<and> c \<noteq> CR"
    and runs: "\<not> sublist [LF, LF, LF] s"
  shows "cleanText s = trim s"
proof -
  let ?t = "trim s"
  from chars set_trim [of s] have c: "\<forall>c \<in> set ?t. \<not> isControlChar c" and r: "CR \<notin> set ?t"
    by auto
  have n: "\<not> sublist [LF, LF, LF] ?t"
    using runs trim_sublist [of s] sublist_order.order.trans by blast
  have "trim ?t = ?t"
    by (rule trim_id [OF trim_trimmed])
  then show ?thesis
    unfolding cleanText_def
    by (simp only: removeControlChars_id [OF c] replaceCRLF_id [OF r] replaceCR_id [OF r]
        collapseNewlines_id [OF n])
qed

lemma cleanText_chars: "c \<in> set (cleanText text) \<Longrightarrow> \<not> isControlChar c \<and> c \<noteq> CR"
proof -
  assume "c \<in> set (cleanText text)"
  then have "c \<in> set (collapseNewlines (replaceCR (replaceCRLF (removeControlChars (trim text)))))"
    unfolding cleanText_def using set_trim by blast
  then have "c \<in> set (replaceCR (replaceCRLF (removeControlChars (trim text))))"
    using set_collapseNewlines by blast
  then have "c \<noteq> CR" and "c \<in> set (replaceCRLF (removeControlChars (trim text))) \<or> c = LF"
    by (auto dest: set_replaceCR)
  moreover have "\<not> isControlChar d" if "d \<in> set (replaceCRLF (removeControlChars (trim text)))" for d
  proof -
    from that set_replaceCRLF have "d \<in> set (removeControlChars (trim text))"
      by blast
    then show ?thesis
      by (simp add: removeControlChars_def)
  qed
  ultimately show ?thesis
    using LF_facts(1) by blast
qed

lemma cleanText_runs: "\<not> sublist [LF, LF, LF] (cleanText text)"
  unfolding cleanText_def
  using collapseNewlines_no_triple trim_sublist sublist_order.order.trans by blast

lemma cleanText_trimmed:
  "cleanText text = [] \<or>
   (\<not> isWhiteSpace (hd (cleanText text)) \<and> \<not> isWhiteSpace (last (cleanText text)))"
  unfolding cleanText_def by (rule trim_trimmed)

lemma cleanText_take:
  assumes "take k (cleanText text) = [] \<or> \<not> isWhiteSpace (last (take k (cleanText text)))"
  shows "cleanText (take k (cleanText text)) = take k (cleanText text)"
proof -
  let ?y = "cleanText text" and ?t = "take k (cleanText text)"
  have chars: "\<forall>c \<in> set ?t. \<not> isControlChar c \<and> c \<noteq> CR"
    using cleanText_chars [of _ "text"] by (auto dest: in_set_takeD)
  have runs: "\<not> sublist [LF, LF, LF] ?t"
    using cleanText_runs [of "text"] sublist_take [of k ?y] sublist_order.order.trans by blast
  have "?t = [] \<or> (\<not> isWhiteSpace (hd ?t) \<and> \<not> isWhiteSpace (last ?t))"
  proof (cases "?t = []")
    case True
    then show ?thesis by simp
  next
    case False
    then have "?y \<noteq> []" and "0 < k"
      by auto
    then have "hd ?t = hd ?y"
      by simp
    with cleanText_trimmed [of "text"] \<open>?y \<noteq> []\<close> assms False show ?thesis
      by simp
  qed
  then have "trim ?t = ?t"
    by (rule trim_id)
  with cleanText_of_clean [OF chars runs] show ?thesis
    by simp
qed

lemma cleanText_idem: "cleanText (cleanText text) = cleanText text"
proof -
  have "take (length (cleanText text)) (cleanText text) = cleanText text"
    by simp
  with cleanText_take [of "length (cleanText text)" "text"] cleanText_trimmed [of "text"]
  show ?thesis
    by auto
qed


subsection \<open>Truncation\<close>



subsection \<open>Idempotence\<close>

text \<open>
  Claim C2, as amended. \<open>sanitizeInput\<close> is idempotent on its text output, and the second
  pass reports \<open>removedCharacters = 0\<close>, for every input whose first pass is not truncated,
  and more generally whenever the text returned by the first pass is empty or does not end in a
  whitespace character.
\<close>

theorem sanitizeInput_idempotent:
  assumes "\<not> wasTruncated (sanitizeInput cfg text) \<or>
           sanitizedText (sanitizeInput cfg text) = [] \<or>
           \<not> isWhiteSpace (last (sanitizedText (sanitizeInput cfg text)))"
  shows "sanitizedText (sanitizeInput cfg (sanitizedText (sanitizeInput cfg text)))
           = sanitizedText (sanitizeInput cfg text) \<and>
         removedCharacters (sanitizeInput cfg (sanitizedText (sanitizeInput cfg text))) = 0"
proof (cases "wasTruncated (sanitizeInput cfg text)")
  case False
  then have t: "sanitizedText (sanitizeInput cfg text) = cleanText text"
    and le: "\<not> int (length (cleanText text)) > maxLength (textProcessing cfg)"
    by (simp_all add: sanitizeInput_def Let_def)
  show ?thesis
    unfolding t using le by (simp add: sanitizeInput_def Let_def cleanText_idem)
next
  case True
  let ?k = "nat (maxLength (textProcessing cfg))"
  from True have t: "sanitizedText (sanitizeInput cfg text) = take ?k (cleanText text)"
    by (simp add: sanitizeInput_def Let_def substring0_def)
  with assms True
  have "take ?k (cleanText text) = [] \<or> \<not> isWhiteSpace (last (take ?k (cleanText text)))"
    by simp
  then have c: "cleanText (take ?k (cleanText text)) = take ?k (cleanText text)"
    by (rule cleanText_take)
  show ?thesis
    unfolding t by (simp add: sanitizeInput_def Let_def substring0_def c)
qed

theorem sanitizeInput_idempotent_witness:
  "(let x = '' Hello'' @ [CR, LF, CR, LF, CR, LF, CR] @ ''World'' @ [CHR 0x00, CHR '' ''];
        r = sanitizeInput defaultConfig x
    in sanitizedText r = ''Hello'' @ [LF, LF] @ ''World'' \<and> \<not> wasTruncated r \<and>
       removedCharacters r = 8 \<and>
       sanitizedText (sanitizeInput defaultConfig (sanitizedText r)) = sanitizedText r \<and>
       removedCharacters (sanitizeInput defaultConfig (sanitizedText r)) = 0)"
proof -
  let ?x = "'' Hello'' @ [CR, LF, CR, LF, CR, LF, CR] @ ''World'' @ [CHR 0x00, CHR '' '']"
  have c: "cleanText ?x = ''Hello'' @ [LF, LF] @ ''World''"
    by code_simp
  have r: "sanitizeInput defaultConfig ?x
             = \<lparr> sanitizedText = ''Hello'' @ [LF, LF] @ ''World'', wasTruncated = False,
                 originalLength = 20, finalLength = 12, removedCharacters = 8 \<rparr>"
    by (simp only: sanitizeInput_def Let_def c) (simp add: defaultConfig_def)
  then have h: "\<not> wasTruncated (sanitizeInput defaultConfig ?x) \<or>
           sanitizedText (sanitizeInput defaultConfig ?x) = [] \<or>
           \<not> isWhiteSpace (last (sanitizedText (sanitizeInput defaultConfig ?x)))"
    by simp
  from sanitizeInput_idempotent [OF h] r show ?thesis
    by (simp add: Let_def)
qed

lemma sanitizeInput_cut_after_space:
  assumes m: "maxLength (textProcessing cfg) = int (Suc n)" and n: "0 < n"
  shows "sanitizeInput cfg (replicate n CHR ''a'' @ '' b'')
           = \<lparr> sanitizedText = replicate n CHR ''a'' @ '' '', wasTruncated = True,
               originalLength = int n + 2, finalLength = int n + 1, removedCharacters = 0 \<rparr>"
    and "sanitizeInput cfg (replicate n CHR ''a'' @ '' '')
           = \<lparr> sanitizedText = replicate n CHR ''a'', wasTruncated = False,
               originalLength = int n + 1, finalLength = int n, removedCharacters = 1 \<rparr>"
proof -
  let ?A = "replicate n CHR ''a''"
  have ws: "\<not> isWhiteSpace CHR ''a''" "\<not> isWhiteSpace CHR ''b''" "isWhiteSpace CHR '' ''"
    by (simp_all add: isWhiteSpace_def)
  have chars: "\<forall>c \<in> set (?A @ ys). \<not> isControlChar c \<and> c \<noteq> CR"
    if "set ys \<subseteq> {CHR '' '', CHR ''b''}" for ys
    using that by (auto simp: isControlChar_def CR_def)
  have runs: "\<not> sublist [LF, LF, LF] (?A @ ys)" if "set ys \<subseteq> {CHR '' '', CHR ''b''}" for ys
  proof
    assume "sublist [LF, LF, LF] (?A @ ys)"
    then have "LF \<in> set (?A @ ys)"
      by (auto dest: set_mono_sublist)
    with that show False
      by (auto simp: LF_def)
  qed
  have "trim (?A @ '' b'') = ?A @ '' b''"
    using n ws by (intro trim_id) (simp add: hd_append)
  with cleanText_of_clean [OF chars runs, of "'' b''"]
  have c1: "cleanText (?A @ '' b'') = ?A @ '' b''"
    by simp
  have "trim (?A @ '' '') = trimEnd (?A @ '' '')"
    using n ws by (intro trim_hd_end) (simp add: hd_append)
  also have "\<dots> = ?A"
    using ws by (simp add: trimEnd_def)
  finally have "trim (?A @ '' '') = ?A" .
  with cleanText_of_clean [OF chars runs, of "'' ''"]
  have c2: "cleanText (?A @ '' '') = ?A"
    by simp
  have k: "nat (1 + int n) = Suc n"
    by simp
  show "sanitizeInput cfg (?A @ '' b'')
           = \<lparr> sanitizedText = ?A @ '' '', wasTruncated = True,
               originalLength = int n + 2, finalLength = int n + 1, removedCharacters = 0 \<rparr>"
    by (simp add: sanitizeInput_def Let_def substring0_def c1 m k)
  show "sanitizeInput cfg (?A @ '' '')
           = \<lparr> sanitizedText = ?A, wasTruncated = False,
               originalLength = int n + 1, finalLength = int n, removedCharacters = 1 \<rparr>"
    by (simp add: sanitizeInput_def Let_def substring0_def c2 m)
qed

text \<open>
  Claim C2 as stated, for all inputs including truncated ones, fails. With the default limit
  of 5000 characters, the 5001 characters \<open>a\<dots>a b\<close> (4999 times \<open>a\<close>, a space,
  \<open>b\<close>) are cut after the space; a second pass trims that space, so its text differs from
  the first pass's and it reports one removed character.
\<close>

theorem sanitizeInput_truncated_not_idempotent:
  "sanitizedText (sanitizeInput defaultConfig
      (sanitizedText (sanitizeInput defaultConfig (replicate 4999 CHR ''a'' @ '' b''))))
     \<noteq> sanitizedText (sanitizeInput defaultConfig (replicate 4999 CHR ''a'' @ '' b'')) \<and>
   removedCharacters (sanitizeInput defaultConfig
      (sanitizedText (sanitizeInput defaultConfig (replicate 4999 CHR ''a'' @ '' b'')))) = 1"
proof -
  have m: "maxLength (textProcessing defaultConfig) = int (Suc 4999)"
    by (simp add: defaultConfig_def)
  have n: "(0::nat) < 4999"
    by simp
  show ?thesis
    by (simp only: sanitizeInput_cut_after_space [OF m n] SanitizeResult.simps) simp
qed

section \<open>Properties of the response parser\<close>

subsection \<open>Which replies are rejected\<close>

text \<open>
  Whatever \<open>JSON.parse\<close> is: the \<open>Error\<close> of step 1 is raised exactly when it throws, the
  \<open>Error\<close> of step 2 exactly when the parsed value is not \<open>null\<close> and has no boolean
  \<open>aiFlag\<close>, and every other failure is a \<open>TypeError\<close>. A reply with a boolean
  \<open>aiFlag\<close> is accepted when \<open>confidence\<close> is falsy or a string and the \<open>snippet\<close> and
  \<open>explanation\<close> of every indicator that has a type are absent, \<open>null\<close> or strings; the
  categories, a collection that is not an array and the reasoning are then defaulted.
\<close>

lemma trimOrEmpty_error: "trimOrEmpty v = Inl e \<Longrightarrow> e = TypeError"
  by (cases v rule: trimOrEmpty.cases) simp_all

lemma normalizeIndicator_error: "normalizeIndicator ind = Inl e \<Longrightarrow> e = TypeError"
  by (auto simp: normalizeIndicator_def split: option.splits json.splits sum.splits
      dest: trimOrEmpty_error)

lemma mapThrowing_error:
  "mapThrowing f xs = Inl e \<Longrightarrow> \<exists>x \<in> set xs. f x = Inl e"
  by (induction xs) (auto split: sum.splits)

lemma mapThrowing_returns:
  "\<forall>x \<in> set xs. \<exists>y. f x = Inr y \<Longrightarrow> \<exists>ys. mapThrowing f xs = Inr ys"
  by (induction xs) (auto split: sum.splits)

lemma normalizeConfidence_error: "normalizeConfidence c = Inl e \<Longrightarrow> e = TypeError"
  by (auto simp: normalizeConfidence_def Let_def split: if_splits option.splits json.splits)

lemma normalizeIndicators_error: "normalizeIndicators i = Inl e \<Longrightarrow> e = TypeError"
  by (auto simp: normalizeIndicators_def split: if_splits option.splits json.splits
      dest!: mapThrowing_error normalizeIndicator_error)

lemma normalizeParsed_InvalidAiFlag:
  "normalizeParsed parsed = Inl InvalidAiFlag \<longleftrightarrow>
     parsed \<noteq> JNull \<and> (\<forall>flag. getProperty parsed ''aiFlag'' \<noteq> Some (JBool flag))"
  by (cases parsed)
     (auto simp: normalizeParsed_def Let_def split: option.splits json.splits sum.splits
      dest: normalizeConfidence_error normalizeIndicators_error)

lemma parseDetectionResult_FailedToParse:
  "parseDetectionResult parse s = Inl FailedToParse \<longleftrightarrow> parse s = None"
  by (cases "parse s"; cases "the (parse s)")
     (auto simp: parseDetectionResult_def normalizeParsed_def Let_def
      split: option.splits json.splits sum.splits
      dest: normalizeConfidence_error normalizeIndicators_error)

lemma parseDetectionResult_InvalidAiFlag:
  "parseDetectionResult parse s = Inl InvalidAiFlag \<longleftrightarrow>
     (\<exists>parsed. parse s = Some parsed \<and> parsed \<noteq> JNull \<and>
        (\<forall>flag. getProperty parsed ''aiFlag'' \<noteq> Some (JBool flag)))"
  by (cases "parse s") (simp_all add: parseDetectionResult_def normalizeParsed_InvalidAiFlag)

lemma normalizeParsed_returns:
  assumes flag: "getProperty parsed ''aiFlag'' = Some (JBool flag)"
    and conf: "truthy (getProperty parsed ''confidence'') \<longrightarrow>
                 (\<exists>s. getProperty parsed ''confidence'' = Some (JString s))"
    and inds: "\<forall>inds. getProperty parsed ''indicators'' = Some (JArray inds) \<longrightarrow>
                 (\<forall>ind \<in> set inds. hasType ind \<longrightarrow>
                    (\<exists>s. trimOrEmpty (getProperty ind ''snippet'') = Inr s) \<and>
                    (\<exists>x. trimOrEmpty (getProperty ind ''explanation'') = Inr x))"
  shows "\<exists>c i. normalizeParsed parsed =
           Inr \<lparr> aiFlag = flag, confidence = c,
                 categoriesFound = normalizeCategories (getProperty parsed ''categoriesFound''),
                 indicators = i,
                 reasoning = normalizeReasoning (getProperty parsed ''reasoning'') \<rparr>"
proof -
  from flag have nn: "parsed \<noteq> JNull"
    by auto
  have "\<exists>c. normalizeConfidence (getProperty parsed ''confidence'') = Inr c"
  proof (cases "truthy (getProperty parsed ''confidence'')")
    case True
    with conf obtain s where "getProperty parsed ''confidence'' = Some (JString s)"
      by blast
    then show ?thesis
      by (simp add: normalizeConfidence_def Let_def)
  next
    case False
    then show ?thesis
      by (simp add: normalizeConfidence_def)
  qed
  then obtain c where c: "normalizeConfidence (getProperty parsed ''confidence'') = Inr c"
    by blast
  have "\<exists>i. normalizeIndicators (getProperty parsed ''indicators'') = Inr i"
  proof (cases "\<exists>inds. getProperty parsed ''indicators'' = Some (JArray inds)")
    case False
    then show ?thesis
      by (auto simp: normalizeIndicators_def split: option.splits json.splits)
  next
    case True
    then obtain inds where a: "getProperty parsed ''indicators'' = Some (JArray inds)"
      by blast
    have "\<exists>y. normalizeIndicator ind = Inr y" if "ind \<in> set (filter hasType inds)" for ind
    proof -
      from that have "ind \<in> set inds" and h: "hasType ind"
        by simp_all
      with inds a obtain s x where "trimOrEmpty (getProperty ind ''snippet'') = Inr s"
        and "trimOrEmpty (getProperty ind ''explanation'') = Inr x"
        by blast
      moreover from h obtain t where "getProperty ind ''type'' = Some (JString t)"
        by (auto simp: hasType_def split: option.splits json.splits)
      ultimately show ?thesis
        by (simp add: normalizeIndicator_def)
    qed
    then have "\<exists>ys. mapThrowing normalizeIndicator (filter hasType inds) = Inr ys"
      by (intro mapThrowing_returns) blast
    with a show ?thesis
      by (simp add: normalizeIndicators_def)
  qed
  then obtain i where i: "normalizeIndicators (getProperty parsed ''indicators'') = Inr i"
    by blast
  from nn flag c i show ?thesis
    by (cases parsed) (simp_all add: normalizeParsed_def Let_def)
qed

text \<open>The replies named by the specification: two that are rejected, one that is defaulted.\<close>

lemma parseDetectionResult_not_json:
  "parseDetectionResult JSON_parse ''not json'' = Inl FailedToParse"
  by code_simp

lemma parseDetectionResult_no_flag:
  \<open>parseDetectionResult JSON_parse ''{"confidence":"high"}'' = Inl InvalidAiFlag\<close>
  by code_simp

lemma parseDetectionResult_flag_only:
  \<open>parseDetectionResult JSON_parse ''{"aiFlag":true}''
     = Inr \<lparr> aiFlag = True, confidence = Medium, categoriesFound = [], indicators = [],
             reasoning = ''No reasoning provided'' \<rparr>\<close>
  by code_simp

text \<open>
  Two more replies that end in a \<open>TypeError\<close>: \<open>null\<close>, whose \<open>aiFlag\<close> cannot be read, and
  an indicator whose snippet is a number.
\<close>

lemma parseDetectionResult_null:
  "parseDetectionResult JSON_parse ''null'' = Inl TypeError"
  by code_simp

lemma parseDetectionResult_numeric_snippet:
  \<open>parseDetectionResult JSON_parse ''{"aiFlag":true,"indicators":[{"type":"X","snippet":5}]}''
     = Inl TypeError\<close>
  by code_simp


text \<open>
  Claim C1 says that a reply whose \<open>aiFlag\<close> is a boolean is never rejected, whatever the
  types of its optional fields, the bad ones being replaced by defaults. On the reply
  \<open>{"aiFlag":true,"confidence":5}\<close> the function raises a \<open>TypeError\<close> instead: 5 is truthy,
  so \<open>parsed.confidence.toLowerCase()\<close> is called, and a number has no such method.
\<close>

theorem parseDetectionResult_numeric_confidence:
  \<open>JSON_parse ''{"aiFlag":true,"confidence":5}''
     = Some (JObject [(''aiFlag'', JBool True), (''confidence'', JNumber 5)]) \<and>
   parseDetectionResult JSON_parse ''{"aiFlag":true,"confidence":5}'' = Inl TypeError\<close>
  by code_simp

subsection \<open>Filtering of categories and indicators\<close>

text \<open>
  Claim C7. For the parsed object
  \<open>{"aiFlag":true,"categoriesFound":["A"," B ",7,""],"indicators":[{"type":"X","snippet":"s"},{"snippet":"no type"}]}\<close>
  the result has \<open>categoriesFound = ["A","B"]\<close> (the number and the empty string dropped, the
  rest trimmed, in order) and exactly one indicator, of type \<open>"X"\<close>; the indicator without a
  type is dropped, not defaulted.
\<close>

theorem normalizeParsed_filters:
  "normalizeParsed
     (JObject
        [(''aiFlag'', JBool True),
         (''categoriesFound'', JArray [JString ''A'', JString '' B '', JNumber 7, JString '''']),
         (''indicators'',
          JArray [JObject [(''type'', JString ''X''), (''snippet'', JString ''s'')],
                  JObject [(''snippet'', JString ''no type'')]])])
   = Inr \<lparr> aiFlag = True,
           confidence = Medium,
           categoriesFound = [''A'', ''B''],
           indicators = [\<lparr> type = ''X'', snippet = ''s'', explanation = '''' \<rparr>],
           reasoning = ''No reasoning provided'' \<rparr>"
  by code_simp

lemma JSON_parse_filter_example:
  \<open>JSON_parse ''{"aiFlag":true,"categoriesFound":["A"," B ",7,""],"indicators":[{"type":"X","snippet":"s"},{"snippet":"no type"}]}''
   = Some (JObject
        [(''aiFlag'', JBool True),
         (''categoriesFound'', JArray [JString ''A'', JString '' B '', JNumber 7, JString '''']),
         (''indicators'',
          JArray [JObject [(''type'', JString ''X''), (''snippet'', JString ''s'')],
                  JObject [(''snippet'', JString ''no type'')]])])\<close>
  by code_simp

subsection \<open>The notification message\<close>

text \<open>
  Claim C8. For every result whose \<open>aiFlag\<close> is false, \<open>createNotificationMessage\<close> returns
  the sentence \<open>No AI-generated patterns detected.\<close>, whatever its confidence, categories,
  indicators and reasoning. In particular the raw reply
  \<open>{"aiFlag":false,"confidence":"high","categoriesFound":[],"indicators":[],"reasoning":"clean"}\<close>
  is parsed successfully and its message is that sentence.
\<close>

theorem createNotificationMessage_not_flagged:
  \<open>(\<not> aiFlag result \<longrightarrow>
      createNotificationMessage result = ''No AI-generated patterns detected.'') \<and>
   parseDetectionResult JSON_parse
      ''{"aiFlag":false,"confidence":"high","categoriesFound":[],"indicators":[],"reasoning":"clean"}''
     = Inr \<lparr> aiFlag = False, confidence = High, categoriesFound = [], indicators = [],
             reasoning = ''clean'' \<rparr> \<and>
   map_sum id createNotificationMessage
      (parseDetectionResult JSON_parse
         ''{"aiFlag":false,"confidence":"high","categoriesFound":[],"indicators":[],"reasoning":"clean"}'')
     = Inr ''No AI-generated patterns detected.''\<close>
proof -
  have parsed: \<open>parseDetectionResult JSON_parse
      ''{"aiFlag":false,"confidence":"high","categoriesFound":[],"indicators":[],"reasoning":"clean"}''
     = Inr \<lparr> aiFlag = False, confidence = High, categoriesFound = [], indicators = [],
             reasoning = ''clean'' \<rparr>\<close>
    by code_simp
  have fixed: "createNotificationMessage r = ''No AI-generated patterns detected.''"
    if "\<not> aiFlag r" for r
    using that by (simp add: createNotificationMessage_def)
  show ?thesis
    unfolding parsed using fixed [of result] by (simp add: createNotificationMessage_def)
qed

theorem createNotificationMessage_not_flagged_witness:
  "createNotificationMessage
     \<lparr> aiFlag = False, confidence = Low, categoriesFound = [''Bracketed Placeholders''],
       indicators = [\<lparr> type = ''Bracketed Placeholders'', snippet = ''[Your Name]'',
                       explanation = ''Template placeholder'' \<rparr>],
       reasoning = ''One placeholder was left in the text'' \<rparr>
   = ''No AI-generated patterns detected.''"
  using createNotificationMessage_not_flagged
    [of "\<lparr> aiFlag = False, confidence = Low, categoriesFound = [''Bracketed Placeholders''],
       indicators = [\<lparr> type = ''Bracketed Placeholders'', snippet = ''[Your Name]'',
                       explanation = ''Template placeholder'' \<rparr>],
       reasoning = ''One placeholder was left in the text'' \<rparr>"]
  by simp

section \<open>Properties of the client address extraction\<close>

lemma extractIPAddress_unknown:
  assumes "headers ''x-forwarded-for'' = None" and "headers ''x-real-ip'' = None"
    and "headers ''cf-connecting-ip'' = None" and "headers ''x-client-ip'' = None"
  shows "extractIPAddress headers = Inr ''unknown''"
  using assms by (simp add: extractIPAddress_def)

lemma firstIfArray_defined:
  "truthyHeader h \<Longrightarrow> h \<noteq> Some (HArray []) \<Longrightarrow> \<exists>s. firstIfArray h = Some s"
  by (cases h rule: firstIfArray.cases) simp_all

lemma extractIPAddress_returns:
  assumes "\<forall>name \<in> {''x-forwarded-for'', ''x-real-ip'', ''cf-connecting-ip'', ''x-client-ip''}.
             headers name \<noteq> Some (HArray [])"
  shows "\<exists>ip. extractIPAddress headers = Inr ip"
proof -
  have d: "\<exists>s. firstIfArray (headers name) = Some s"
    if "truthyHeader (headers name)"
      and "name \<in> {''x-forwarded-for'', ''x-real-ip'', ''cf-connecting-ip'', ''x-client-ip''}"
    for name
    using that assms firstIfArray_defined by blast
  consider (a) "truthyHeader (headers ''x-forwarded-for'')"
    | (b) "\<not> truthyHeader (headers ''x-forwarded-for'')" "truthyHeader (headers ''x-real-ip'')"
    | (c) "\<not> truthyHeader (headers ''x-forwarded-for'')" "\<not> truthyHeader (headers ''x-real-ip'')"
          "truthyHeader (headers ''cf-connecting-ip'')"
    | (d) "\<not> truthyHeader (headers ''x-forwarded-for'')" "\<not> truthyHeader (headers ''x-real-ip'')"
          "\<not> truthyHeader (headers ''cf-connecting-ip'')" "truthyHeader (headers ''x-client-ip'')"
    | (e) "\<not> truthyHeader (headers ''x-forwarded-for'')" "\<not> truthyHeader (headers ''x-real-ip'')"
          "\<not> truthyHeader (headers ''cf-connecting-ip'')" "\<not> truthyHeader (headers ''x-client-ip'')"
    by blast
  then show ?thesis
  proof cases
    case a
    with d [of "''x-forwarded-for''"] obtain s where "firstIfArray (headers ''x-forwarded-for'') = Some s"
      by auto
    with a show ?thesis
      by (simp add: extractIPAddress_def)
  next
    case b
    with d [of "''x-real-ip''"] obtain s where "firstIfArray (headers ''x-real-ip'') = Some s"
      by auto
    with b show ?thesis
      by (simp add: extractIPAddress_def)
  next
    case c
    with d [of "''cf-connecting-ip''"] obtain s where "firstIfArray (headers ''cf-connecting-ip'') = Some s"
      by auto
    with c show ?thesis
      by (simp add: extractIPAddress_def)
  next
    case d': d
    with d [of "''x-client-ip''"] obtain s where "firstIfArray (headers ''x-client-ip'') = Some s"
      by auto
    with d' show ?thesis
      by (simp add: extractIPAddress_def)
  next
    case e
    then show ?thesis
      by (simp add: extractIPAddress_def)
  qed
qed

text \<open>
  Claim C10 says that \<open>extractIPAddress\<close> returns a string for every header mapping, the
  empty array included. For \<open>{'x-forwarded-for': []}\<close> it raises a \<open>TypeError\<close> instead: the
  empty array is truthy, \<open>ip[0]\<close> is \<open>undefined\<close>, and \<open>undefined.split\<close> throws. (It does
  return a string whenever none of the four headers is an empty array, and \<open>unknown\<close> when
  none of them is present.)
\<close>

theorem extractIPAddress_empty_array:
  "extractIPAddress [''x-forwarded-for'' \<mapsto> HArray []] = Inl TypeError"
  by (simp add: extractIPAddress_def)

end
